theory Spec2Isabelle
  imports Main
begin

section \<open>Python values and exceptions used by app.py\<close>

text \<open>
  Values produced by \<^verbatim>\<open>json.loads\<close> / \<^verbatim>\<open>response.json()\<close> and consumed by
  \<^verbatim>\<open>json.dumps\<close>. An object holds the parsed dict as an association list (keys
  are unique after parsing, so the first match is the value).
\<close>

datatype json =
    JNull
  | JBool bool
  | JNum int
  | JStr string
  | JArr "json list"
  | JObj "(string \<times> json) list"

text \<open>
  The exceptions that occur in app.py. \<open>OtherException\<close> stands for any further
  subclass of \<^verbatim>\<open>Exception\<close> raised by a library (requests, vosk, aiohttp).
  Since Python 3.8 \<^verbatim>\<open>asyncio.CancelledError\<close> derives from \<^verbatim>\<open>BaseException\<close>
  and not from \<^verbatim>\<open>Exception\<close>, so a clause \<^verbatim>\<open>except Exception\<close> does not catch it.
\<close>

datatype py_exc =
    TimeoutError
  | CancelledError
  | JSONDecodeError
  | RecursionError
  | ValueError
  | IndexError
  | KeyError
  | TypeError
  | AttributeError
  | OtherException string

fun is_Exception :: "py_exc \<Rightarrow> bool" where
  "is_Exception CancelledError = False"
| "is_Exception _ = True"

text \<open>
  What \<^verbatim>\<open>json.loads\<close> does on a string that it does not decode: the text is not
  valid JSON where the decoder looks (\<^verbatim>\<open>JSONDecodeError\<close>), the nesting is deeper
  than the interpreter's recursion limit (\<^verbatim>\<open>RecursionError\<close>, also on text that is
  not JSON, such as a thousand opening brackets), or an integer literal has more digits
  than the interpreter converts (\<^verbatim>\<open>ValueError\<close>). A clause
  \<^verbatim>\<open>except json.JSONDecodeError\<close> catches the first only. The decoder itself is a
  parameter \<open>loads\<close> of the model: \<open>Inr j\<close> is the decoded value.
\<close>

datatype decode_error = NotJSON | TooDeep | IntTooLong

fun decode_exc :: "decode_error \<Rightarrow> py_exc" where
  "decode_exc NotJSON = JSONDecodeError"
| "decode_exc TooDeep = RecursionError"
| "decode_exc IntTooLong = ValueError"

text \<open>The outcome of an \<^verbatim>\<open>await\<close>: the awaited value, or an exception thrown at the await.\<close>

datatype 'a await = Return 'a | Raise py_exc

text \<open>\<^verbatim>\<open>v[i]\<close> for an integer index \<open>i \<ge> 0\<close> (app.py only uses \<^verbatim>\<open>[0]\<close>).\<close>

fun getitem_int :: "json \<Rightarrow> nat \<Rightarrow> py_exc + json" where
  "getitem_int (JArr xs) i = (if i < length xs then Inr (xs ! i) else Inl IndexError)"
| "getitem_int (JStr s) i = (if i < length s then Inr (JStr [s ! i]) else Inl IndexError)"
| "getitem_int (JObj kvs) i = Inl KeyError"
| "getitem_int _ i = Inl TypeError"

text \<open>\<^verbatim>\<open>v[k]\<close> for a string key \<open>k\<close>.\<close>

fun getitem_str :: "json \<Rightarrow> string \<Rightarrow> py_exc + json" where
  "getitem_str (JObj kvs) k = (case map_of kvs k of None \<Rightarrow> Inl KeyError | Some v \<Rightarrow> Inr v)"
| "getitem_str _ k = Inl TypeError"

text \<open>\<^verbatim>\<open>d.get(k)\<close>: only a dict has the method; a missing key gives \<^verbatim>\<open>None\<close>.\<close>

fun py_get :: "json \<Rightarrow> string \<Rightarrow> py_exc + json" where
  "py_get (JObj kvs) k = (case map_of kvs k of None \<Rightarrow> Inr JNull | Some v \<Rightarrow> Inr v)"
| "py_get _ k = Inl AttributeError"

text \<open>\<^verbatim>\<open>d.get(k, default)\<close> on the recognizer's result object, whose fields are strings.\<close>

definition dict_get :: "(string \<times> string) list \<Rightarrow> string \<Rightarrow> string \<Rightarrow> string" where
  "dict_get d k dflt = (case map_of d k of None \<Rightarrow> dflt | Some v \<Rightarrow> v)"

section \<open>translate_text\<close>

text \<open>
  The HTTP response as app.py reads it: \<^verbatim>\<open>status_code\<close> and the body.
  \<^verbatim>\<open>response.json()\<close> decodes the body with the JSON decoder \<open>loads\<close> and raises
  when the decoder does.
\<close>

record response =
  status_code :: int
  body :: string

definition response_json :: "(string \<Rightarrow> decode_error + json) \<Rightarrow> response \<Rightarrow> py_exc + json" where
  "response_json loads r =
     (case loads (body r) of Inl d \<Rightarrow> Inl (decode_exc d) | Inr j \<Rightarrow> Inr j)"

text \<open>Line 76: \<^verbatim>\<open>response.json()[0]["translations"][0]["text"]\<close>.\<close>

definition extract_translation :: "(string \<Rightarrow> decode_error + json) \<Rightarrow> response \<Rightarrow> py_exc + json" where
  "extract_translation loads r =
     (case response_json loads r of
        Inl e \<Rightarrow> Inl e
      | Inr j \<Rightarrow>
          (case getitem_int j 0 of
             Inl e \<Rightarrow> Inl e
           | Inr first \<Rightarrow>
               (case getitem_str first ''translations'' of
                  Inl e \<Rightarrow> Inl e
                | Inr ts \<Rightarrow>
                    (case getitem_int ts 0 of
                       Inl e \<Rightarrow> Inl e
                     | Inr t \<Rightarrow> getitem_str t ''text''))))"

text \<open>
  Lines 54-79, the body of the \<^verbatim>\<open>try\<close>. The argument \<open>call\<close> is the outcome of
  \<^verbatim>\<open>await asyncio.wait_for(future, timeout=5.0)\<close>: the response of
  \<^verbatim>\<open>requests.post\<close>, \<open>Raise TimeoutError\<close> when the 5 second deadline passes,
  \<open>Raise CancelledError\<close> when the awaiting task is cancelled, or the exception that
  \<^verbatim>\<open>requests.post\<close> raised in the worker thread.
\<close>

definition translate_try :: "(string \<Rightarrow> decode_error + json) \<Rightarrow> string \<Rightarrow> string \<Rightarrow> response await \<Rightarrow> py_exc + json" where
  "translate_try loads text target_lang call =
     (case call of
        Raise e \<Rightarrow> Inl e
      | Return r \<Rightarrow>
          if status_code r = 200 then extract_translation loads r
          else Inr (JStr text))"

text \<open>
  Lines 51-86. \<open>Inl e\<close> is an exception that leaves \<^verbatim>\<open>translate_text\<close>; \<open>Inr v\<close> is
  the returned value. The two \<^verbatim>\<open>except\<close> clauses are tried in the source's order.
\<close>

definition translate_text :: "(string \<Rightarrow> decode_error + json) \<Rightarrow> string \<Rightarrow> string \<Rightarrow> response await \<Rightarrow> py_exc + json" where
  "translate_text loads text target_lang call =
     (case translate_try loads text target_lang call of
        Inr v \<Rightarrow> Inr v
      | Inl e \<Rightarrow>
          if e = TimeoutError then Inr (JStr text)
          else if is_Exception e then Inr (JStr text)
          else Inl e)"

section \<open>process_audio: one recognition session\<close>

text \<open>
  The state of one session: the local variable \<^verbatim>\<open>current_partial\<close> and, as the
  effect on the socket, the messages handed to \<^verbatim>\<open>websocket.send_str\<close> in order
  (the dict given to \<^verbatim>\<open>json.dumps\<close>; serialisation is left out).
\<close>

record session =
  current_partial :: string
  sent :: "json list"

text \<open>Line 101.\<close>

definition status_msg :: json where
  "status_msg = JObj [(''type'', JStr ''listening_started''), (''message'', JStr ''Listening...'')]"

text \<open>Lines 123-126.\<close>

definition transcription_msg :: "string \<Rightarrow> json" where
  "transcription_msg text = JObj [(''type'', JStr ''transcription''), (''text'', JStr text)]"

text \<open>Lines 147-151.\<close>

definition partial_msg :: "string \<Rightarrow> json" where
  "partial_msg partial_text =
     JObj [(''type'', JStr ''transcription''), (''text'', JStr partial_text), (''partial'', JBool True)]"

text \<open>Lines 134-137.\<close>

definition translation_msg :: "json \<Rightarrow> json" where
  "translation_msg translated_text = JObj [(''type'', JStr ''translation''), (''text'', translated_text)]"

text \<open>
  \<^verbatim>\<open>await websocket.send_str(m)\<close>: the message is handed to the socket, then the
  await returns or an exception is thrown at it (the transport refuses the write, or
  the task is cancelled while it waits).
\<close>

definition send_str :: "json \<Rightarrow> unit await \<Rightarrow> session \<Rightarrow> (py_exc + unit) \<times> session" where
  "send_str m outcome s =
     ((case outcome of Return u \<Rightarrow> Inr () | Raise e \<Rightarrow> Inl e), s\<lparr>sent := sent s @ [m]\<rparr>)"

text \<open>
  What lines 108-116 and 141-142 observe in one iteration: the queue is empty after
  0.1 s; the recognizer (or decoding its JSON result) raises; \<^verbatim>\<open>AcceptWaveform\<close>
  returns true and \<^verbatim>\<open>json.loads(rec.Result())\<close> is the given object; or it returns
  false and \<^verbatim>\<open>json.loads(rec.PartialResult())\<close> is the given object.
\<close>

datatype frame =
    QueueEmpty
  | RecRaises py_exc
  | FinalResult "(string \<times> string) list"
  | PartialResult "(string \<times> string) list"

text \<open>
  The environment of one iteration: the frame, and the outcome of each await the
  iteration can reach (first and second \<^verbatim>\<open>send_str\<close>, the HTTP call inside
  \<^verbatim>\<open>translate_text\<close>, and \<^verbatim>\<open>asyncio.sleep(0.1)\<close> of line 158).
\<close>

record iter_env =
  frame :: frame
  send1 :: "unit await"
  http_call :: "response await"
  send2 :: "unit await"
  sleep :: "unit await"

text \<open>Lines 107-152, the body of the inner \<^verbatim>\<open>try\<close>.\<close>

definition try_body :: "(string \<Rightarrow> decode_error + json) \<Rightarrow> string \<Rightarrow> iter_env \<Rightarrow> session \<Rightarrow> (py_exc + unit) \<times> session" where
  "try_body loads target_lang env s =
     (case frame env of
        QueueEmpty \<Rightarrow> (Inr (), s)
      | RecRaises e \<Rightarrow> (Inl e, s)
      | FinalResult result \<Rightarrow>
          (let text = dict_get result ''text'' '''' in
           if text \<noteq> '''' then
             (case send_str (transcription_msg text) (send1 env) s of
                (Inl e, s1) \<Rightarrow> (Inl e, s1)
              | (Inr u, s1) \<Rightarrow>
                  (case translate_text loads text target_lang (http_call env) of
                     Inl e \<Rightarrow> (Inl e, s1)
                   | Inr translated_text \<Rightarrow>
                       send_str (translation_msg translated_text) (send2 env) s1))
           else (Inr (), s))
      | PartialResult partial \<Rightarrow>
          (let partial_text = dict_get partial ''partial'' '''' in
           if partial_text \<noteq> '''' \<and> partial_text \<noteq> current_partial s then
             send_str (partial_msg partial_text) (send1 env) (s\<lparr>current_partial := partial_text\<rparr>)
           else (Inr (), s)))"

text \<open>
  Lines 106-158, one pass through the loop body: \<^verbatim>\<open>except Exception\<close> logs, sleeps
  and goes on; any other exception (\<^verbatim>\<open>CancelledError\<close>) leaves the loop, and so does
  an exception thrown at the sleep.
\<close>

definition iteration :: "(string \<Rightarrow> decode_error + json) \<Rightarrow> string \<Rightarrow> iter_env \<Rightarrow> session \<Rightarrow> (py_exc + unit) \<times> session" where
  "iteration loads target_lang env s =
     (case try_body loads target_lang env s of
        (Inr u, s1) \<Rightarrow> (Inr (), s1)
      | (Inl e, s1) \<Rightarrow>
          if is_Exception e then
            (case sleep env of Return u \<Rightarrow> (Inr (), s1) | Raise e2 \<Rightarrow> (Inl e2, s1))
          else (Inl e, s1))"

text \<open>
  The loop head (line 105) either finds \<^verbatim>\<open>should_stop\<close> set, or runs one iteration.
  A finite list of these inputs is a finite stretch of the session's life.
\<close>

datatype loop_in = StopSet | Iter iter_env

text \<open>
  The state of the task that runs \<^verbatim>\<open>process_audio\<close>: still inside the loop, returned,
  or ended by an exception that \<^verbatim>\<open>process_audio\<close> does not catch.
\<close>

datatype task_state = TaskRunning | TaskReturned | TaskRaised py_exc

fun while_loop :: "(string \<Rightarrow> decode_error + json) \<Rightarrow> string \<Rightarrow> loop_in list \<Rightarrow> session \<Rightarrow> (py_exc + task_state) \<times> session" where
  "while_loop loads target_lang [] s = (Inr TaskRunning, s)"
| "while_loop loads target_lang (StopSet # ins) s = (Inr TaskReturned, s)"
| "while_loop loads target_lang (Iter env # ins) s =
     (case iteration loads target_lang env s of
        (Inr u, s1) \<Rightarrow> while_loop loads target_lang ins s1
      | (Inl e, s1) \<Rightarrow> (Inl e, s1))"

text \<open>
  What happens before the loop: \<^verbatim>\<open>vosk.KaldiRecognizer(model, 16000)\<close> returns or
  raises, and the await of the first \<^verbatim>\<open>send_str\<close> returns or has an exception thrown.
\<close>

record start_env =
  recognizer :: "unit await"
  send0 :: "unit await"

text \<open>Lines 97-158, the body of the outer \<^verbatim>\<open>try\<close>.\<close>

definition process_try :: "(string \<Rightarrow> decode_error + json) \<Rightarrow> string \<Rightarrow> start_env \<Rightarrow> loop_in list \<Rightarrow> (py_exc + task_state) \<times> session" where
  "process_try loads target_lang start ins =
     (let s0 = \<lparr>current_partial = '''', sent = []\<rparr> in
      case recognizer start of
        Raise e \<Rightarrow> (Inl e, s0)
      | Return u \<Rightarrow>
          (case send_str status_msg (send0 start) s0 of
             (Inl e, s1) \<Rightarrow> (Inl e, s1)
           | (Inr u, s1) \<Rightarrow> while_loop loads target_lang ins s1))"

text \<open>
  Lines 94-163. The outer \<^verbatim>\<open>except Exception\<close> logs and lets the function return;
  \<^verbatim>\<open>CancelledError\<close> passes through both handlers and ends the task.
\<close>

definition process_audio :: "(string \<Rightarrow> decode_error + json) \<Rightarrow> string \<Rightarrow> start_env \<Rightarrow> loop_in list \<Rightarrow> task_state \<times> session" where
  "process_audio loads target_lang start ins =
     (case process_try loads target_lang start ins of
        (Inr st, s) \<Rightarrow> (st, s)
      | (Inl e, s) \<Rightarrow> if is_Exception e then (TaskReturned, s) else (TaskRaised e, s))"

section \<open>websocket_handler and the connection registry\<close>

text \<open>
  The messages that \<^verbatim>\<open>async for msg in ws\<close> yields, by \<^verbatim>\<open>msg.type\<close>: TEXT with
  its data, ERROR, or any other type. The iteration ends when the socket closes, which
  is the end of the list.
\<close>

datatype ws_msg = TEXT string | ERROR | OtherType

datatype level = Info | Warning | Error

datatype loop_exit = StopCommand | ErrorMessage | StreamClosed

text \<open>
  Lines 192-203. The result is how the loop was left (\<open>Inl e\<close>: by an exception that
  the \<^verbatim>\<open>except json.JSONDecodeError\<close> clause does not catch, raised by the decoder
  or by \<^verbatim>\<open>data.get\<close>) and the log lines written.
  The text of \<^verbatim>\<open>ws.exception()\<close> is left out of the line logged for an ERROR message.
\<close>

fun message_loop :: "(string \<Rightarrow> decode_error + json) \<Rightarrow> ws_msg list \<Rightarrow> (py_exc + loop_exit) \<times> (level \<times> string) list" where
  "message_loop loads [] = (Inr StreamClosed, [])"
| "message_loop loads (TEXT data # rest) =
     (let received = (Info, ''Received WebSocket message: '' @ data) in
      case loads data of
        Inl d \<Rightarrow>
          if decode_exc d = JSONDecodeError then
            (case message_loop loads rest of
               (r, l) \<Rightarrow> (r, received # (Warning, ''Received invalid JSON: '' @ data) # l))
          else (Inl (decode_exc d), [received])
      | Inr parsed \<Rightarrow>
          (case py_get parsed ''command'' of
             Inl e \<Rightarrow> (Inl e, [received])
           | Inr command \<Rightarrow>
               if command = JStr ''stop'' then (Inr StopCommand, [received])
               else (case message_loop loads rest of (r, l) \<Rightarrow> (r, received # l))))"
| "message_loop loads (ERROR # rest) = (Inr ErrorMessage, [(Error, ''WebSocket error'')])"
| "message_loop loads (OtherType # rest) = message_loop loads rest"

text \<open>
  Line 206, \<^verbatim>\<open>process_task.cancel()\<close>: a task that has not finished is suspended at
  an await, where \<^verbatim>\<open>CancelledError\<close> is thrown into it; \<^verbatim>\<open>process_audio\<close> does not
  catch it (see \<open>process_audio\<close>), so the task ends cancelled. On a finished task
  \<^verbatim>\<open>cancel\<close> does nothing.
\<close>

fun cancel :: "task_state \<Rightarrow> task_state" where
  "cancel TaskRunning = TaskRaised CancelledError"
| "cancel t = t"

text \<open>
  Line 208, \<^verbatim>\<open>await process_task\<close>: the result of a finished task, or its exception;
  \<open>None\<close> while the task has not finished.
\<close>

fun await_task :: "task_state \<Rightarrow> (py_exc + unit) option" where
  "await_task TaskRunning = None"
| "await_task TaskReturned = Some (Inr ())"
| "await_task (TaskRaised e) = Some (Inl e)"

text \<open>
  The global state: \<^verbatim>\<open>active_connections\<close> (sockets named by numbers), the event
  \<^verbatim>\<open>should_stop\<close>, and the tasks running \<^verbatim>\<open>start_audio_device\<close>: those created
  and not yet run, and those inside \<^verbatim>\<open>with stream\<close> (an open, started input stream).
\<close>

record server =
  active_connections :: "nat set"
  should_stop :: bool
  device_pending :: nat
  device_running :: nat

text \<open>Lines 28-31: the state when the module is loaded.\<close>

definition server0 :: server where
  "server0 = \<lparr>active_connections = {}, should_stop = False, device_pending = 0, device_running = 0\<rparr>"

text \<open>Lines 177-185; no await lies between them.\<close>

definition on_connect :: "nat \<Rightarrow> server \<Rightarrow> server" where
  "on_connect ws srv =
     (let srv1 = srv\<lparr>active_connections := insert ws (active_connections srv)\<rparr> in
      if card (active_connections srv1) = 1
      then srv1\<lparr>should_stop := False, device_pending := device_pending srv1 + 1\<rparr>
      else srv1)"

text \<open>Lines 213-219, the \<^verbatim>\<open>finally\<close> block; \<^verbatim>\<open>set.remove\<close> raises on a missing element.\<close>

definition teardown :: "nat \<Rightarrow> server \<Rightarrow> py_exc + server" where
  "teardown ws srv =
     (if ws \<notin> active_connections srv then Inl KeyError
      else
        (let srv1 = srv\<lparr>active_connections := active_connections srv - {ws}\<rparr> in
         if card (active_connections srv1) = 0 then Inr (srv1\<lparr>should_stop := True\<rparr>)
         else Inr srv1))"

text \<open>
  Lines 187-210, the \<^verbatim>\<open>try\<close> block after the task was created: the message loop,
  then cancel, await, and \<^verbatim>\<open>except asyncio.CancelledError: pass\<close>. An exception out
  of the message loop skips the cancellation. The argument \<open>t\<close> is the state of
  \<^verbatim>\<open>process_task\<close> when the message loop is left.
\<close>

definition handler_try :: "(string \<Rightarrow> decode_error + json) \<Rightarrow> ws_msg list \<Rightarrow> task_state \<Rightarrow> (py_exc option \<times> task_state \<times> (level \<times> string) list) option" where
  "handler_try loads msgs t =
     (case message_loop loads msgs of
        (Inl e, l) \<Rightarrow> Some (Some e, t, l)
      | (Inr x, l) \<Rightarrow>
          (let t1 = cancel t in
           case await_task t1 of
             None \<Rightarrow> None
           | Some (Inr u) \<Rightarrow> Some (None, t1, l)
           | Some (Inl e) \<Rightarrow>
               if e = CancelledError then Some (None, t1, l) else Some (Some e, t1, l)))"

text \<open>
  What the handler leaves behind: the exception that escapes it (if any), the state of
  the processing task, the registry and the log.
\<close>

record handler_result =
  escaped :: "py_exc option"
  task :: task_state
  registry :: server
  log :: "(level \<times> string) list"

text \<open>
  Lines 187-221: the \<^verbatim>\<open>try\<close> block, then the \<^verbatim>\<open>finally\<close> block on the registry as
  it is at that time.
\<close>

definition handler_finish :: "(string \<Rightarrow> decode_error + json) \<Rightarrow> nat \<Rightarrow> ws_msg list \<Rightarrow> task_state \<Rightarrow> server \<Rightarrow> handler_result option" where
  "handler_finish loads ws msgs t srv =
     (case handler_try loads msgs t of
        None \<Rightarrow> None
      | Some (exc, t1, l) \<Rightarrow>
          (case teardown ws srv of
             Inl e \<Rightarrow> Some \<lparr>escaped = Some e, task = t1, registry = srv, log = l\<rparr>
           | Inr srv1 \<Rightarrow>
               Some \<lparr>escaped = exc, task = t1, registry = srv1,
                     log = (if card (active_connections srv1) = 0
                            then l @ [(Info, ''No active connections, stopping audio capture'')]
                            else l)\<rparr>))"

section \<open>start_audio_device\<close>

text \<open>
  Lines 225-240, the first run of a created task: \<^verbatim>\<open>sd.RawInputStream\<close> opens the
  device or raises (\<open>opened\<close>); \<^verbatim>\<open>with stream\<close> starts it; the loop condition is
  tested, and if \<^verbatim>\<open>should_stop\<close> is already set the stream is closed again at once.
\<close>

definition device_start :: "bool \<Rightarrow> server \<Rightarrow> server option" where
  "device_start opened srv =
     (if device_pending srv = 0 then None
      else
        (let srv1 = srv\<lparr>device_pending := device_pending srv - 1\<rparr> in
         if \<not> opened then Some srv1
         else if should_stop srv1 then Some srv1
         else Some (srv1\<lparr>device_running := device_running srv1 + 1\<rparr>)))"

text \<open>
  Lines 239-242: a task inside the loop wakes from \<^verbatim>\<open>asyncio.sleep(0.1)\<close> and tests
  \<^verbatim>\<open>should_stop\<close> again; if it is set the \<^verbatim>\<open>with\<close> block is left and the stream
  is closed.
\<close>

definition device_poll :: "server \<Rightarrow> server option" where
  "device_poll srv =
     (if device_running srv = 0 then None
      else if should_stop srv then Some (srv\<lparr>device_running := device_running srv - 1\<rparr>)
      else Some srv)"

text \<open>
  The steps of the event loop that touch the global state: a handler reaches line 177
  for a new socket, a handler reaches its \<^verbatim>\<open>finally\<close> block, a created device task
  runs for the first time, a device task wakes from its sleep. A step is \<open>None\<close> when
  it cannot occur in that state.
\<close>

datatype event = Connect nat | Disconnect nat | DeviceStart bool | DevicePoll

fun step :: "event \<Rightarrow> server \<Rightarrow> server option" where
  "step (Connect ws) srv = (if ws \<in> active_connections srv then None else Some (on_connect ws srv))"
| "step (Disconnect ws) srv = (case teardown ws srv of Inl e \<Rightarrow> None | Inr srv1 \<Rightarrow> Some srv1)"
| "step (DeviceStart opened) srv = device_start opened srv"
| "step DevicePoll srv = device_poll srv"

fun run :: "event list \<Rightarrow> server \<Rightarrow> server option" where
  "run [] srv = Some srv"
| "run (e # es) srv = (case step e srv of None \<Rightarrow> None | Some srv1 \<Rightarrow> run es srv1)"

section \<open>Reading the trace, and concrete inputs\<close>

text \<open>The field \<open>k\<close> of a message on the socket.\<close>

fun msg_field :: "json \<Rightarrow> string \<Rightarrow> json option" where
  "msg_field (JObj kvs) k = map_of kvs k"
| "msg_field _ k = None"

definition is_transcription :: "json \<Rightarrow> bool" where
  "is_transcription m = (msg_field m ''type'' = Some (JStr ''transcription''))"

definition is_partial :: "json \<Rightarrow> bool" where
  "is_partial m = (is_transcription m \<and> msg_field m ''partial'' = Some (JBool True))"

definition is_final :: "json \<Rightarrow> bool" where
  "is_final m = (is_transcription m \<and> msg_field m ''partial'' = None)"

definition is_translation :: "json \<Rightarrow> bool" where
  "is_translation m = (msg_field m ''type'' = Some (JStr ''translation''))"

definition msg_text :: "json \<Rightarrow> json option" where
  "msg_text m = msg_field m ''text''"

text \<open>The texts of the partial transcription events of a trace, in order.\<close>

definition partial_texts :: "json list \<Rightarrow> json option list" where
  "partial_texts tr = map msg_text (filter is_partial tr)"

text \<open>
  What one iteration hands to the socket and the value it leaves in
  \<^verbatim>\<open>current_partial\<close>, as functions of its inputs; \<open>iteration_state\<close> below proves
  that \<open>iteration\<close> does exactly this.
\<close>

definition emitted :: "(string \<Rightarrow> decode_error + json) \<Rightarrow> string \<Rightarrow> iter_env \<Rightarrow> string \<Rightarrow> json list" where
  "emitted loads target_lang env cp =
     (case frame env of
        QueueEmpty \<Rightarrow> []
      | RecRaises e \<Rightarrow> []
      | FinalResult d \<Rightarrow>
          (let t = dict_get d ''text'' '''' in
           if t = '''' then []
           else transcription_msg t #
             (case send1 env of
                Raise e \<Rightarrow> []
              | Return u \<Rightarrow>
                  (case translate_text loads t target_lang (http_call env) of
                     Inl e \<Rightarrow> []
                   | Inr v \<Rightarrow> [translation_msg v])))
      | PartialResult d \<Rightarrow>
          (let t = dict_get d ''partial'' '''' in
           if t \<noteq> '''' \<and> t \<noteq> cp then [partial_msg t] else []))"

definition next_partial :: "iter_env \<Rightarrow> string \<Rightarrow> string" where
  "next_partial env cp =
     (case frame env of
        PartialResult d \<Rightarrow>
          (let t = dict_get d ''partial'' '''' in if t \<noteq> '''' \<and> t \<noteq> cp then t else cp)
      | _ \<Rightarrow> cp)"

text \<open>
  The de-duplication invariant of a session state: no two neighbouring partial events
  carry the same text, and \<^verbatim>\<open>current_partial\<close> is the text of the last one (or empty
  when there is none).
\<close>

definition dedup_inv :: "session \<Rightarrow> bool" where
  "dedup_inv s \<longleftrightarrow>
     distinct_adj (partial_texts (sent s))
     \<and> last (Some (JStr '''') # partial_texts (sent s)) = Some (JStr (current_partial s))"

text \<open>
  Every translation event of a trace comes directly after the final transcription
  event of the text it translates.
\<close>

definition ordered :: "(string \<Rightarrow> decode_error + json) \<Rightarrow> string \<Rightarrow> json list \<Rightarrow> bool" where
  "ordered loads target_lang tr \<longleftrightarrow>
     (\<forall>i < length tr. is_translation (tr ! i) \<longrightarrow>
        0 < i \<and> (\<exists>t v call. t \<noteq> '''' \<and> tr ! (i - 1) = transcription_msg t
                    \<and> tr ! i = translation_msg v
                    \<and> translate_text loads t target_lang call = Inr v))"

text \<open>A message after which the message loop goes on to the next one.\<close>

definition passed_over :: "(string \<Rightarrow> decode_error + json) \<Rightarrow> ws_msg \<Rightarrow> bool" where
  "passed_over loads m =
     (case m of
        TEXT data \<Rightarrow>
          (case loads data of
             Inl d \<Rightarrow> decode_exc d = JSONDecodeError
           | Inr parsed \<Rightarrow>
               (case py_get parsed ''command'' of Inl e \<Rightarrow> False | Inr c \<Rightarrow> c \<noteq> JStr ''stop''))
      | ERROR \<Rightarrow> False
      | OtherType \<Rightarrow> True)"

text \<open>The data of a stop command: it parses to an object whose \<open>command\<close> is \<open>stop\<close>.\<close>

definition is_stop :: "(string \<Rightarrow> decode_error + json) \<Rightarrow> string \<Rightarrow> bool" where
  "is_stop loads data =
     (case loads data of
        Inl d \<Rightarrow> False
      | Inr parsed \<Rightarrow> py_get parsed ''command'' = Inr (JStr ''stop''))"

text \<open>
  The invariant of the global state: with no connection left, a device task exists only
  while the stop signal is set.
\<close>

definition stop_inv :: "server \<Rightarrow> bool" where
  "stop_inv srv \<longleftrightarrow>
     finite (active_connections srv)
     \<and> (active_connections srv = {} \<and> 0 < device_pending srv + device_running srv \<longrightarrow> should_stop srv)"

text \<open>A thousand opening brackets: not JSON, and too deep for the decoder.\<close>

definition brackets :: string where
  "brackets = replicate 1000 (CHR ''['')"

text \<open>
  A decoder for the concrete inputs below: it agrees with \<^verbatim>\<open>json.loads\<close> on the
  strings it knows.
\<close>

definition loads0 :: "string \<Rightarrow> decode_error + json" where
  "loads0 s =
     (if s = ''[]'' then Inr (JArr [])
      else if s = ''5'' then Inr (JNum 5)
      else if s = ''{\"command\": \"stop\"}'' then Inr (JObj [(''command'', JStr ''stop'')])
      else if s = ''{\"command\": \"go\"}'' then Inr (JObj [(''command'', JStr ''go'')])
      else if s = brackets then Inl TooDeep
      else Inl NotJSON)"

text \<open>
  An iteration on frame \<open>f\<close> in which every send returns and the translation call
  runs into its deadline; a start in which the recognizer is built and the first send
  returns.
\<close>

definition ok_env :: "frame \<Rightarrow> iter_env" where
  "ok_env f = \<lparr>frame = f, send1 = Return (), http_call = Raise TimeoutError, send2 = Return (), sleep = Return ()\<rparr>"

definition ok_start :: start_env where
  "ok_start = \<lparr>recognizer = Return (), send0 = Return ()\<rparr>"

text \<open>A session that hears the partial \<open>hel\<close> and then the final \<open>hello\<close>.\<close>

definition hello_ins :: "loop_in list" where
  "hello_ins =
     [Iter (ok_env (PartialResult [(''partial'', ''hel'')])),
      Iter (ok_env (FinalResult [(''text'', ''hello'')]))]"

text \<open>
  An iteration on the final result \<open>bye\<close> in which the task is cancelled while it
  awaits the translation call.
\<close>

definition cancelled_env :: iter_env where
  "cancelled_env =
     \<lparr>frame = FinalResult [(''text'', ''bye'')], send1 = Return (),
      http_call = Raise CancelledError, send2 = Return (), sleep = Return ()\<rparr>"

text \<open>
  An input on which the loop goes round without executing an await: the blocking
  \<^verbatim>\<open>audio_queue.get(timeout=0.1)\<close> finds nothing and line 111 continues, or the test
  of line 118 or of line 145 fails. None of the awaits of lines 127, 130, 138 and 152 is
  reached, and no exception leads to the sleep of line 158. The argument \<open>cp\<close> is
  the value of \<^verbatim>\<open>current_partial\<close>.
\<close>

definition quiet :: "string \<Rightarrow> loop_in \<Rightarrow> bool" where
  "quiet cp x =
     (case x of
        StopSet \<Rightarrow> False
      | Iter env \<Rightarrow>
          (case frame env of
             QueueEmpty \<Rightarrow> True
           | RecRaises e \<Rightarrow> False
           | FinalResult result \<Rightarrow> dict_get result ''text'' '''' = ''''
           | PartialResult partial \<Rightarrow>
               (let partial_text = dict_get partial ''partial'' '''' in
                partial_text = '''' \<or> partial_text = cp)))"

text \<open>
  An iteration in a silent room: the recognizer reports the empty partial text. At
  every await of the loop body a \<^verbatim>\<open>CancelledError\<close> is waiting to be thrown.
\<close>

definition silent_env :: iter_env where
  "silent_env =
     \<lparr>frame = PartialResult [(''partial'', '''')], send1 = Raise CancelledError,
      http_call = Raise CancelledError, send2 = Raise CancelledError,
      sleep = Raise CancelledError\<rparr>"

section \<open>Properties of translate_text\<close>

lemma getitem_int_Exception: "getitem_int j i = Inl e \<Longrightarrow> is_Exception e"
  by (cases j) (auto split: if_splits)

lemma getitem_str_Exception: "getitem_str j k = Inl e \<Longrightarrow> is_Exception e"
  by (cases j) (auto split: option.splits)

lemma decode_exc_Exception: "is_Exception (decode_exc d)"
  by (cases d) simp_all

lemma extract_translation_Exception:
  assumes "extract_translation loads r = Inl e"
  shows "is_Exception e"
  using assms
  unfolding extract_translation_def response_json_def
  by (auto simp: decode_exc_Exception split: option.splits sum.splits
           dest: getitem_int_Exception getitem_str_Exception)

text \<open>
  C1. If the awaited HTTP call passes the 5 second deadline, raises an exception
  (any instance of \<^verbatim>\<open>Exception\<close>), or returns a status other than 200, then
  \<^verbatim>\<open>translate_text\<close> returns the original text and raises nothing, for every text and
  target language.
\<close>

theorem translate_text_fallback:
  "(call = Raise TimeoutError
      \<or> (\<exists>e. call = Raise e \<and> is_Exception e)
      \<or> (\<exists>r. call = Return r \<and> status_code r \<noteq> 200))
   \<Longrightarrow> translate_text loads text target_lang call = Inr (JStr text)"
  by (auto simp: translate_text_def translate_try_def)

theorem translate_text_fallback_witness:
  "translate_text loads0 ''test'' ''fr'' (Raise TimeoutError) = Inr (JStr ''test'')
   \<and> translate_text loads0 ''test'' ''fr'' (Raise (OtherException ''ConnectionError'')) = Inr (JStr ''test'')
   \<and> translate_text loads0 ''test'' ''fr'' (Return \<lparr>status_code = 401, body = ''denied''\<rparr>) = Inr (JStr ''test'')"
  using translate_text_fallback [of "Raise TimeoutError" loads0 "''test''" "''fr''"]
        translate_text_fallback [of "Raise (OtherException ''ConnectionError'')" loads0 "''test''" "''fr''"]
        translate_text_fallback [of "Return \<lparr>status_code = 401, body = ''denied''\<rparr>" loads0 "''test''" "''fr''"]
  by simp

text \<open>
  C10. If the call returns status 200 and extracting the translated text from the body
  raises (the body is not JSON, or not of the shape
  \<^verbatim>\<open>[{"translations": [{"text": ...}]}]\<close>), then \<^verbatim>\<open>translate_text\<close> returns the
  original text and raises nothing.
\<close>

theorem translate_text_bad_shape:
  assumes "status_code r = 200"
    and "extract_translation loads r = Inl e"
  shows "translate_text loads text target_lang (Return r) = Inr (JStr text)"
  using assms extract_translation_Exception [OF assms(2)]
  by (simp add: translate_text_def translate_try_def)

theorem translate_text_bad_shape_witness:
  "status_code \<lparr>status_code = 200, body = ''[]''\<rparr> = 200
   \<and> extract_translation loads0 \<lparr>status_code = 200, body = ''[]''\<rparr> = Inl IndexError
   \<and> translate_text loads0 ''test'' ''fr'' (Return \<lparr>status_code = 200, body = ''[]''\<rparr>) = Inr (JStr ''test'')"
proof -
  let ?r = "\<lparr>status_code = 200, body = ''[]''\<rparr>"
  have s: "status_code ?r = 200" by simp
  have x: "extract_translation loads0 ?r = Inl IndexError"
    by (simp add: extract_translation_def response_json_def loads0_def)
  show ?thesis
    using s x translate_text_bad_shape [OF s x, of "''test''" "''fr''"] by simp
qed

section \<open>Lemmas about the session\<close>

lemma try_body_state:
  "snd (try_body loads lang env s) =
     s\<lparr>current_partial := next_partial env (current_partial s),
      sent := sent s @ emitted loads lang env (current_partial s)\<rparr>"
  by (cases "frame env")
     (auto simp: try_body_def emitted_def next_partial_def send_str_def Let_def
           split: await.splits sum.splits)

lemma iteration_state:
  "snd (iteration loads lang env s) =
     s\<lparr>current_partial := next_partial env (current_partial s),
      sent := sent s @ emitted loads lang env (current_partial s)\<rparr>"
proof -
  have "snd (iteration loads lang env s) = snd (try_body loads lang env s)"
    by (auto simp: iteration_def split: prod.splits sum.splits await.splits)
  then show ?thesis by (simp add: try_body_state)
qed

lemma while_loop_inv:
  assumes step: "\<And>env s. P s \<Longrightarrow> P (snd (iteration loads lang env s))"
    and "P s"
  shows "P (snd (while_loop loads lang ins s))"
  using \<open>P s\<close>
proof (induction ins arbitrary: s)
  case Nil
  then show ?case by simp
next
  case (Cons x ins)
  show ?case
  proof (cases x)
    case StopSet
    with Cons.prems show ?thesis by simp
  next
    case (Iter env)
    obtain r s1 where it: "iteration loads lang env s = (r, s1)"
      by (cases "iteration loads lang env s")
    with step [OF Cons.prems, of env] have "P s1" by simp
    then show ?thesis
      using Iter it Cons.IH [of s1] by (cases r) simp_all
  qed
qed

lemma process_audio_inv:
  assumes step: "\<And>env s. P s \<Longrightarrow> P (snd (iteration loads lang env s))"
    and init: "P \<lparr>current_partial = '''', sent = [status_msg]\<rparr>"
  shows "snd (process_audio loads lang start ins) = \<lparr>current_partial = '''', sent = []\<rparr>
         \<or> P (snd (process_audio loads lang start ins))"
proof (cases "recognizer start")
  case (Raise e)
  then show ?thesis
    by (simp add: process_audio_def process_try_def)
next
  case (Return u)
  let ?s1 = "\<lparr>current_partial = '''', sent = [status_msg]\<rparr>"
  show ?thesis
  proof (cases "send0 start")
    case (Raise e)
    with Return init show ?thesis
      by (simp add: process_audio_def process_try_def send_str_def)
  next
    case Return2: (Return u2)
    have "snd (process_audio loads lang start ins) = snd (while_loop loads lang ins ?s1)"
      using Return Return2
      by (auto simp: process_audio_def process_try_def send_str_def split: prod.splits sum.splits)
    with while_loop_inv [of P loads lang ?s1 ins, OF step init] show ?thesis
      by simp
  qed
qed

lemma kinds [simp]:
  "is_partial (partial_msg t)" "\<not> is_partial (transcription_msg t)" "\<not> is_partial (translation_msg v)"
  "\<not> is_partial status_msg"
  "is_final (transcription_msg t)" "\<not> is_final (partial_msg t)" "\<not> is_final (translation_msg v)"
  "\<not> is_final status_msg"
  "is_translation (translation_msg v)" "\<not> is_translation (partial_msg t)"
  "\<not> is_translation (transcription_msg t)" "\<not> is_translation status_msg"
  by (simp_all add: is_partial_def is_final_def is_translation_def is_transcription_def partial_msg_def
        transcription_msg_def translation_msg_def status_msg_def)

lemma msg_text_partial_msg [simp]: "msg_text (partial_msg t) = Some (JStr t)"
  by (simp add: msg_text_def partial_msg_def)

lemma partial_texts_emitted:
  "partial_texts (emitted loads lang env cp) =
     (if next_partial env cp = cp then [] else [Some (JStr (next_partial env cp))])"
  by (cases "frame env")
     (auto simp: partial_texts_def emitted_def next_partial_def Let_def
           split: await.splits sum.splits)

lemma partial_texts_append: "partial_texts (xs @ ys) = partial_texts xs @ partial_texts ys"
  by (simp add: partial_texts_def)

lemma dedup_inv_iteration:
  assumes "dedup_inv s"
  shows "dedup_inv (snd (iteration loads lang env s))"
proof (cases "next_partial env (current_partial s) = current_partial s")
  case True
  with assms show ?thesis
    by (simp add: dedup_inv_def iteration_state partial_texts_append partial_texts_emitted)
next
  case False
  with assms show ?thesis
    by (auto simp: dedup_inv_def iteration_state partial_texts_append partial_texts_emitted
          distinct_adj_append_iff)
qed

lemma dedup_inv_process_audio: "dedup_inv (snd (process_audio loads lang start ins))"
proof -
  have init: "dedup_inv \<lparr>current_partial = [], sent = [status_msg]\<rparr>"
    by (simp add: dedup_inv_def partial_texts_def)
  have empty: "dedup_inv \<lparr>current_partial = [], sent = []\<rparr>"
    by (simp add: dedup_inv_def partial_texts_def)
  have "snd (process_audio loads lang start ins) = \<lparr>current_partial = [], sent = []\<rparr>
        \<or> dedup_inv (snd (process_audio loads lang start ins))"
    by (rule process_audio_inv) (simp_all add: dedup_inv_iteration init)
  with empty show ?thesis
    by (elim disjE) simp_all
qed

lemma ordered_append:
  assumes "ordered loads lang xs" and "ordered loads lang ys"
  shows "ordered loads lang (xs @ ys)"
  unfolding ordered_def
proof (intro allI impI)
  fix i
  assume i: "i < length (xs @ ys)" and tr: "is_translation ((xs @ ys) ! i)"
  show "0 < i \<and> (\<exists>t v call. t \<noteq> '''' \<and> (xs @ ys) ! (i - 1) = transcription_msg t
                    \<and> (xs @ ys) ! i = translation_msg v
                    \<and> translate_text loads t lang call = Inr v)"
  proof (cases "i < length xs")
    case True
    from True assms(1) tr have "0 < i \<and> (\<exists>t v call. t \<noteq> '''' \<and> xs ! (i - 1) = transcription_msg t
                    \<and> xs ! i = translation_msg v
                    \<and> translate_text loads t lang call = Inr v)"
      by (simp add: ordered_def nth_append)
    moreover from True have "i - 1 < length xs" by arith
    with True have "(xs @ ys) ! (i - 1) = xs ! (i - 1)" and "(xs @ ys) ! i = xs ! i"
      by (simp_all add: nth_append)
    ultimately show ?thesis by simp
  next
    case False
    define j where "j = i - length xs"
    from False i have j: "j < length ys" and ij: "i = length xs + j"
      by (simp_all add: j_def)
    from tr ij have "is_translation (ys ! j)" by (simp add: nth_append)
    with assms(2) j have *: "0 < j \<and> (\<exists>t v call. t \<noteq> '''' \<and> ys ! (j - 1) = transcription_msg t
                    \<and> ys ! j = translation_msg v
                    \<and> translate_text loads t lang call = Inr v)"
      by (simp add: ordered_def)
    then have "0 < j" by simp
    with ij have "i - 1 = length xs + (j - 1)" by arith
    then have "(xs @ ys) ! (i - 1) = ys ! (j - 1)"
      by (simp add: nth_append)
    moreover from ij have "(xs @ ys) ! i = ys ! j"
      by (simp add: nth_append)
    moreover from \<open>0 < j\<close> ij have "0 < i" by simp
    ultimately show ?thesis using * by simp
  qed
qed

lemma ordered_emitted: "ordered loads lang (emitted loads lang env cp)"
  by (cases "frame env")
     (auto simp: ordered_def emitted_def Let_def less_Suc_eq split: await.splits sum.splits)

lemma ordered_iteration:
  "ordered loads lang (sent s) \<Longrightarrow> ordered loads lang (sent (snd (iteration loads lang env s)))"
  by (simp add: iteration_state ordered_append ordered_emitted)

lemma ordered_process_audio: "ordered loads lang (sent (snd (process_audio loads lang start ins)))"
proof -
  let ?P = "\<lambda>s. ordered loads lang (sent s)"
  have "snd (process_audio loads lang start ins) = \<lparr>current_partial = [], sent = []\<rparr>
        \<or> ?P (snd (process_audio loads lang start ins))"
    by (rule process_audio_inv) (simp_all add: ordered_iteration, simp add: ordered_def)
  then show ?thesis
    by (elim disjE) (simp_all add: ordered_def)
qed

lemma status_first_process_audio:
  "sent (snd (process_audio loads lang start ins)) = []
   \<or> (\<exists>rest. sent (snd (process_audio loads lang start ins)) = status_msg # rest)"
proof -
  let ?P = "\<lambda>s. \<exists>rest. sent s = status_msg # rest"
  have "snd (process_audio loads lang start ins) = \<lparr>current_partial = [], sent = []\<rparr>
        \<or> ?P (snd (process_audio loads lang start ins))"
    by (rule process_audio_inv) (auto simp: iteration_state)
  then show ?thesis
    by (elim disjE) simp_all
qed

lemma while_loop_ended:
  "fst (while_loop loads lang ins s) \<noteq> Inr TaskRunning
   \<Longrightarrow> while_loop loads lang (ins @ later) s = while_loop loads lang ins s"
proof (induction ins arbitrary: s)
  case Nil
  then show ?case by simp
next
  case (Cons x ins)
  show ?case
  proof (cases x)
    case StopSet
    then show ?thesis by simp
  next
    case (Iter env)
    with Cons show ?thesis
      by (auto split: prod.splits sum.splits)
  qed
qed

lemma while_loop_running:
  "while_loop loads lang ins s = (Inr TaskRunning, s')
   \<Longrightarrow> while_loop loads lang (ins @ later) s = while_loop loads lang later s'"
proof (induction ins arbitrary: s)
  case Nil
  then show ?case by simp
next
  case (Cons x ins)
  show ?case
  proof (cases x)
    case StopSet
    with Cons.prems show ?thesis by simp
  next
    case (Iter env)
    with Cons show ?thesis
      by (auto split: prod.splits sum.splits)
  qed
qed

lemma process_audio_ended:
  assumes "fst (process_audio loads lang start ins) \<noteq> TaskRunning"
  shows "process_audio loads lang start (ins @ later) = process_audio loads lang start ins"
proof -
  have "fst (process_try loads lang start ins) \<noteq> Inr TaskRunning"
    using assms by (auto simp: process_audio_def split: prod.splits sum.splits if_splits)
  then have "process_try loads lang start (ins @ later) = process_try loads lang start ins"
    by (auto simp: process_try_def Let_def while_loop_ended split: await.splits prod.splits sum.splits)
  then show ?thesis by (simp add: process_audio_def)
qed

lemma process_audio_cancelled:
  assumes run: "process_audio loads lang start ins = (TaskRunning, s)"
    and it: "iteration loads lang env s = (Inl CancelledError, s1)"
  shows "process_audio loads lang start (ins @ Iter env # later) = (TaskRaised CancelledError, s1)"
proof -
  from run obtain u u2 where r: "recognizer start = Return u" and s0: "send0 start = Return u2"
    by (cases "recognizer start"; cases "send0 start")
       (auto simp: process_audio_def process_try_def send_str_def split: if_splits)
  let ?s1 = "\<lparr>current_partial = [], sent = [status_msg]\<rparr>"
  from run r s0 have "while_loop loads lang ins ?s1 = (Inr TaskRunning, s)"
    by (auto simp: process_audio_def process_try_def send_str_def split: prod.splits sum.splits if_splits)
  then have "while_loop loads lang (ins @ Iter env # later) ?s1 = (Inl CancelledError, s1)"
    using it by (simp add: while_loop_running)
  with r s0 show ?thesis
    by (simp add: process_audio_def process_try_def send_str_def)
qed

text \<open>
  A task cancelled while it awaits the first send ends there, whatever it would have
  been fed.
\<close>

lemma process_audio_cancelled_at_start:
  assumes "recognizer start = Return u" and "send0 start = Raise CancelledError"
  shows "process_audio loads lang start ins =
           (TaskRaised CancelledError, \<lparr>current_partial = [], sent = [status_msg]\<rparr>)"
  using assms by (simp add: process_audio_def process_try_def send_str_def)

text \<open>No transcription event of a session trace carries the empty text.\<close>

lemma no_empty_transcription:
  assumes "m \<in> set (sent (snd (process_audio loads lang start ins)))"
    and "is_transcription m"
  shows "msg_text m \<noteq> Some (JStr [])"
proof -
  let ?P = "\<lambda>s. \<forall>m \<in> set (sent s). is_transcription m \<longrightarrow> msg_text m \<noteq> Some (JStr [])"
  have emitted: "\<forall>m \<in> set (emitted loads lang env cp). is_transcription m \<longrightarrow> msg_text m \<noteq> Some (JStr [])"
    for env cp
    by (cases "frame env")
       (auto simp: emitted_def Let_def msg_text_def is_transcription_def transcription_msg_def
             partial_msg_def translation_msg_def split: await.splits sum.splits)
  have step: "?P (snd (iteration loads lang env s))" if "?P s" for env s
    using that emitted [of env "current_partial s"] by (auto simp: iteration_state)
  have init: "?P \<lparr>current_partial = [], sent = [status_msg]\<rparr>"
    by (simp add: is_transcription_def status_msg_def)
  have "snd (process_audio loads lang start ins) = \<lparr>current_partial = [], sent = []\<rparr>
        \<or> ?P (snd (process_audio loads lang start ins))"
    by (rule process_audio_inv) (use step init in blast)+
  with assms show ?thesis by auto
qed

section \<open>Lemmas about the handler and the registry\<close>

lemma message_loop_reaches_stop:
  assumes "list_all (passed_over loads) pre" and "is_stop loads data"
  shows "fst (message_loop loads (pre @ TEXT data # post)) = Inr StopCommand"
  using assms
proof (induction pre)
  case Nil
  then show ?case
    by (auto simp: is_stop_def Let_def split: sum.splits)
next
  case (Cons m pre)
  then show ?case
    by (cases m) (auto simp: passed_over_def Let_def split: option.splits sum.splits prod.splits)
qed

lemma card_remove_zero:
  assumes "finite A" and "x \<in> A"
  shows "card (A - {x}) = 0 \<longleftrightarrow> A = {x}"
proof -
  from assms(1) have "card (A - {x}) = 0 \<longleftrightarrow> A - {x} = {}"
    by (simp only: card_eq_0_iff finite_Diff simp_thms)
  also from assms(2) have "\<dots> \<longleftrightarrow> A = {x}"
    by blast
  finally show ?thesis .
qed

lemma on_connect_eq:
  assumes "finite (active_connections srv)" and "ws \<notin> active_connections srv"
  shows "on_connect ws srv =
     (if active_connections srv = {}
      then srv\<lparr>active_connections := {ws}, should_stop := False,
                device_pending := device_pending srv + 1\<rparr>
      else srv\<lparr>active_connections := insert ws (active_connections srv)\<rparr>)"
  using assms by (simp add: on_connect_def)

lemma teardown_eq:
  assumes "finite (active_connections srv)" and "ws \<in> active_connections srv"
  shows "teardown ws srv =
     Inr (if active_connections srv = {ws}
          then srv\<lparr>active_connections := {}, should_stop := True\<rparr>
          else srv\<lparr>active_connections := active_connections srv - {ws}\<rparr>)"
proof -
  from assms have "card (active_connections srv - {ws}) = 0 \<longleftrightarrow> active_connections srv = {ws}"
    by (rule card_remove_zero)
  with assms(2) show ?thesis
    by (auto simp: teardown_def Let_def)
qed

lemma step_stop_inv:
  assumes "step e srv = Some srv'" and "stop_inv srv"
  shows "stop_inv srv'"
proof (cases e)
  case (Connect ws)
  with assms have "ws \<notin> active_connections srv" and "srv' = on_connect ws srv"
    by (auto split: if_splits)
  with assms(2) show ?thesis
    by (auto simp: stop_inv_def on_connect_eq)
next
  case (Disconnect ws)
  with assms have "ws \<in> active_connections srv" and "teardown ws srv = Inr srv'"
    by (auto simp: teardown_def split: sum.splits if_splits)
  with assms(2) have srv': "srv' = (if active_connections srv = {ws}
          then srv\<lparr>active_connections := {}, should_stop := True\<rparr>
          else srv\<lparr>active_connections := active_connections srv - {ws}\<rparr>)"
    by (simp add: stop_inv_def teardown_eq)
  show ?thesis
  proof (cases "active_connections srv = {ws}")
    case True
    with srv' show ?thesis by (simp add: stop_inv_def)
  next
    case False
    with \<open>ws \<in> active_connections srv\<close> have "active_connections srv - {ws} \<noteq> {}"
      by blast
    with False srv' assms(2) show ?thesis by (simp add: stop_inv_def)
  qed
next
  case (DeviceStart opened)
  with assms show ?thesis
    by (auto simp: stop_inv_def device_start_def Let_def split: if_splits)
next
  case DevicePoll
  with assms show ?thesis
    by (auto simp: stop_inv_def device_poll_def split: if_splits)
qed

lemma run_stop_inv: "run es srv = Some srv' \<Longrightarrow> stop_inv srv \<Longrightarrow> stop_inv srv'"
proof (induction es arbitrary: srv)
  case Nil
  then show ?case by simp
next
  case (Cons e es)
  then show ?case
    by (auto split: option.splits dest: step_stop_inv)
qed


section \<open>Properties of the session\<close>

lemma hello_run:
  "process_audio loads0 ''fr'' ok_start hello_ins =
     (TaskRunning,
      \<lparr>current_partial = ''hel'',
       sent = [status_msg, partial_msg ''hel'', transcription_msg ''hello'',
               translation_msg (JStr ''hello'')]\<rparr>)"
  by (simp add: process_audio_def process_try_def hello_ins_def ok_env_def ok_start_def
        send_str_def iteration_def try_body_def dict_get_def translate_text_def translate_try_def
        Let_def)

text \<open>
  C2 (as stated, refuted). A session hears the partial \<open>hel\<close> and then the final
  \<open>hello\<close>: the final transcription is sent, and \<^verbatim>\<open>current_partial\<close> is still
  \<open>hel\<close>, not empty. The final branch (lines 114-138) never assigns
  \<^verbatim>\<open>current_partial\<close>.
\<close>

theorem final_resets_partial_counterexample:
  "fst (process_audio loads0 ''fr'' ok_start hello_ins) = TaskRunning
   \<and> sent (snd (process_audio loads0 ''fr'' ok_start hello_ins)) =
       [status_msg, partial_msg ''hel'', transcription_msg ''hello'', translation_msg (JStr ''hello'')]
   \<and> current_partial (snd (process_audio loads0 ''fr'' ok_start hello_ins)) = ''hel''
   \<and> current_partial (snd (process_audio loads0 ''fr'' ok_start hello_ins)) \<noteq> ''''"
  by (simp add: hello_run)

text \<open>
  C2 (amended). In an iteration where the recognizer reports a final result with
  non-empty text \<open>t\<close>, the session hands the final transcription event of \<open>t\<close> to the
  socket exactly once, followed by at most one translation event, and leaves
  \<^verbatim>\<open>current_partial\<close> as it was.
\<close>

theorem final_result_emitted_once:
  assumes "frame env = FinalResult d"
    and "dict_get d ''text'' '''' = t"
    and "t \<noteq> ''''"
  shows "\<exists>tail. sent (snd (iteration loads lang env s)) = sent s @ transcription_msg t # tail
           \<and> filter is_final (transcription_msg t # tail) = [transcription_msg t]
           \<and> (tail = [] \<or> (\<exists>v. tail = [translation_msg v]))
           \<and> current_partial (snd (iteration loads lang env s)) = current_partial s"
  using assms
  by (auto simp: iteration_state emitted_def next_partial_def split: await.splits sum.splits)

theorem final_result_emitted_once_witness:
  "frame (ok_env (FinalResult [(''text'', ''hello'')])) = FinalResult [(''text'', ''hello'')]
   \<and> dict_get [(''text'', ''hello'')] ''text'' '''' = ''hello''
   \<and> ''hello'' \<noteq> ''''
   \<and> (\<exists>tail. sent (snd (iteration loads0 ''fr'' (ok_env (FinalResult [(''text'', ''hello'')]))
                        \<lparr>current_partial = ''hel'', sent = [status_msg, partial_msg ''hel'']\<rparr>))
            = sent \<lparr>current_partial = ''hel'', sent = [status_msg, partial_msg ''hel'']\<rparr>
              @ transcription_msg ''hello'' # tail
           \<and> filter is_final (transcription_msg ''hello'' # tail) = [transcription_msg ''hello'']
           \<and> (tail = [] \<or> (\<exists>v. tail = [translation_msg v]))
           \<and> current_partial (snd (iteration loads0 ''fr'' (ok_env (FinalResult [(''text'', ''hello'')]))
                        \<lparr>current_partial = ''hel'', sent = [status_msg, partial_msg ''hel'']\<rparr>))
             = current_partial \<lparr>current_partial = ''hel'', sent = [status_msg, partial_msg ''hel'']\<rparr>)"
proof -
  let ?env = "ok_env (FinalResult [(''text'', ''hello'')])"
  have f: "frame ?env = FinalResult [(''text'', ''hello'')]" by (simp add: ok_env_def)
  have t: "dict_get [(''text'', ''hello'')] ''text'' '''' = ''hello''" by (simp add: dict_get_def)
  have n: "''hello'' \<noteq> ''''" by simp
  from final_result_emitted_once [OF f t n, of loads0 "''fr''"
         "\<lparr>current_partial = ''hel'', sent = [status_msg, partial_msg ''hel'']\<rparr>"] f t n
  show ?thesis by blast
qed

text \<open>
  C3. In every session, whatever it is fed: no two consecutive partial transcription
  events of its trace carry the same text; \<^verbatim>\<open>current_partial\<close> is the text of the
  last partial event sent (empty if none); and a further iteration on a partial result
  sends something only if the text differs from that last partial text.
\<close>

theorem partial_dedup:
  "distinct_adj (partial_texts (sent (snd (process_audio loads lang start ins))))
   \<and> last (Some (JStr '''') # partial_texts (sent (snd (process_audio loads lang start ins))))
       = Some (JStr (current_partial (snd (process_audio loads lang start ins))))
   \<and> (frame env = PartialResult d
        \<and> sent (snd (iteration loads lang env (snd (process_audio loads lang start ins))))
            \<noteq> sent (snd (process_audio loads lang start ins))
      \<longrightarrow> Some (JStr (dict_get d ''partial'' ''''))
            \<noteq> last (Some (JStr '''') # partial_texts (sent (snd (process_audio loads lang start ins)))))"
proof -
  let ?s = "snd (process_audio loads lang start ins)"
  have inv: "dedup_inv ?s" by (rule dedup_inv_process_audio)
  then have 1: "distinct_adj (partial_texts (sent ?s))"
    and 2: "last (Some (JStr '''') # partial_texts (sent ?s)) = Some (JStr (current_partial ?s))"
    by (simp_all add: dedup_inv_def)
  have 3: "Some (JStr (dict_get d ''partial'' '''')) \<noteq> last (Some (JStr '''') # partial_texts (sent ?s))"
    if "frame env = PartialResult d" and "sent (snd (iteration loads lang env ?s)) \<noteq> sent ?s"
    using that unfolding 2
    by (auto simp: iteration_state emitted_def Let_def split: if_splits)
  from 1 2 3 show ?thesis by blast
qed

theorem partial_dedup_witness:
  "frame (ok_env (PartialResult [(''partial'', ''help'')])) = PartialResult [(''partial'', ''help'')]
   \<and> sent (snd (iteration loads0 ''fr'' (ok_env (PartialResult [(''partial'', ''help'')]))
               (snd (process_audio loads0 ''fr'' ok_start hello_ins))))
       \<noteq> sent (snd (process_audio loads0 ''fr'' ok_start hello_ins))
   \<and> distinct_adj (partial_texts (sent (snd (process_audio loads0 ''fr'' ok_start hello_ins))))
   \<and> Some (JStr (dict_get [(''partial'', ''help'')] ''partial'' ''''))
       \<noteq> last (Some (JStr '''') # partial_texts (sent (snd (process_audio loads0 ''fr'' ok_start hello_ins))))"
proof -
  let ?env = "ok_env (PartialResult [(''partial'', ''help'')])"
  let ?s = "snd (process_audio loads0 ''fr'' ok_start hello_ins)"
  have f: "frame ?env = PartialResult [(''partial'', ''help'')]"
    by (simp add: ok_env_def)
  have c: "sent (snd (iteration loads0 ''fr'' ?env ?s)) \<noteq> sent ?s"
    by (simp add: hello_run iteration_state emitted_def ok_env_def dict_get_def)
  from partial_dedup [of loads0 "''fr''" ok_start hello_ins ?env "[(''partial'', ''help'')]"] f c
  show ?thesis by blast
qed

lemma msg_text_transcription_msg: "msg_text (transcription_msg t) = Some (JStr t)"
  by (simp add: msg_text_def transcription_msg_def)

lemma msg_text_translation_msg: "msg_text (translation_msg v) = Some v"
  by (simp add: msg_text_def translation_msg_def)

text \<open>
  C5. In the trace of a session, every translation event has a predecessor, and the
  event directly before it is a final transcription event (type \<open>transcription\<close>, no
  \<open>partial\<close> field) whose text is a non-empty string \<open>t\<close>; the translation event
  carries the value that \<^verbatim>\<open>translate_text\<close> returned for this \<open>t\<close>.
\<close>

theorem translation_follows_transcription:
  assumes "i < length (sent (snd (process_audio loads lang start ins)))"
    and "is_translation (sent (snd (process_audio loads lang start ins)) ! i)"
  shows "0 < i
     \<and> is_final (sent (snd (process_audio loads lang start ins)) ! (i - 1))
     \<and> \<not> is_partial (sent (snd (process_audio loads lang start ins)) ! (i - 1))
     \<and> (\<exists>t v call. t \<noteq> ''''
           \<and> msg_text (sent (snd (process_audio loads lang start ins)) ! (i - 1)) = Some (JStr t)
           \<and> sent (snd (process_audio loads lang start ins)) ! (i - 1) = transcription_msg t
           \<and> msg_text (sent (snd (process_audio loads lang start ins)) ! i) = Some v
           \<and> sent (snd (process_audio loads lang start ins)) ! i = translation_msg v
           \<and> translate_text loads t lang call = Inr v)"
proof -
  let ?tr = "sent (snd (process_audio loads lang start ins))"
  from assms ordered_process_audio [of loads lang start ins]
  obtain t v call where pos: "0 < i" and t: "t \<noteq> ''''"
    and prev: "?tr ! (i - 1) = transcription_msg t"
    and cur: "?tr ! i = translation_msg v"
    and tr: "translate_text loads t lang call = Inr v"
    unfolding ordered_def by blast
  have "is_final (?tr ! (i - 1))" and "\<not> is_partial (?tr ! (i - 1))"
    and "msg_text (?tr ! (i - 1)) = Some (JStr t)" and "msg_text (?tr ! i) = Some v"
    using prev cur by (simp_all add: msg_text_transcription_msg msg_text_translation_msg)
  with pos t prev cur tr show ?thesis by blast
qed

theorem translation_follows_transcription_witness:
  "3 < length (sent (snd (process_audio loads0 ''fr'' ok_start hello_ins)))
   \<and> is_translation (sent (snd (process_audio loads0 ''fr'' ok_start hello_ins)) ! 3)
   \<and> (0::nat) < 3
   \<and> is_final (sent (snd (process_audio loads0 ''fr'' ok_start hello_ins)) ! (3 - 1))
   \<and> (\<exists>t v call. t \<noteq> ''''
           \<and> msg_text (sent (snd (process_audio loads0 ''fr'' ok_start hello_ins)) ! (3 - 1)) = Some (JStr t)
           \<and> sent (snd (process_audio loads0 ''fr'' ok_start hello_ins)) ! (3 - 1) = transcription_msg t
           \<and> msg_text (sent (snd (process_audio loads0 ''fr'' ok_start hello_ins)) ! 3) = Some v
           \<and> sent (snd (process_audio loads0 ''fr'' ok_start hello_ins)) ! 3 = translation_msg v
           \<and> translate_text loads0 t ''fr'' call = Inr v)"
proof -
  let ?tr = "sent (snd (process_audio loads0 ''fr'' ok_start hello_ins))"
  have l: "3 < length ?tr" by (simp add: hello_run)
  have t: "is_translation (?tr ! 3)" by (simp add: hello_run)
  from translation_follows_transcription [OF l t] l t show ?thesis by blast
qed

text \<open>
  C6. If the text extracted from a final result (\<^verbatim>\<open>result.get("text", "")\<close>) or
  from a partial result (\<^verbatim>\<open>partial.get("partial", "")\<close>) is empty, the iteration
  sends nothing and leaves the session as it was.
\<close>

theorem empty_text_suppressed:
  assumes "(frame env = FinalResult d \<and> dict_get d ''text'' '''' = '''')
         \<or> (frame env = PartialResult d \<and> dict_get d ''partial'' '''' = '''')"
  shows "iteration loads lang env s = (Inr (), s)"
  using assms by (auto simp: iteration_def try_body_def)

theorem empty_text_suppressed_witness:
  "frame (ok_env (FinalResult [(''text'', '''')])) = FinalResult [(''text'', '''')]
   \<and> dict_get [(''text'', '''')] ''text'' '''' = ''''
   \<and> frame (ok_env (PartialResult [])) = PartialResult []
   \<and> dict_get [] ''partial'' '''' = ''''
   \<and> iteration loads0 ''fr'' (ok_env (FinalResult [(''text'', '''')]))
        \<lparr>current_partial = ''hel'', sent = [status_msg, partial_msg ''hel'']\<rparr>
      = (Inr (), \<lparr>current_partial = ''hel'', sent = [status_msg, partial_msg ''hel'']\<rparr>)
   \<and> iteration loads0 ''fr'' (ok_env (PartialResult []))
        \<lparr>current_partial = ''hel'', sent = [status_msg, partial_msg ''hel'']\<rparr>
      = (Inr (), \<lparr>current_partial = ''hel'', sent = [status_msg, partial_msg ''hel'']\<rparr>)"
proof -
  let ?s = "\<lparr>current_partial = ''hel'', sent = [status_msg, partial_msg ''hel'']\<rparr>"
  have f: "frame (ok_env (FinalResult [(''text'', '''')])) = FinalResult [(''text'', '''')]
           \<and> dict_get [(''text'', '''')] ''text'' '''' = ''''"
    by (simp add: ok_env_def dict_get_def)
  have p: "frame (ok_env (PartialResult [])) = PartialResult [] \<and> dict_get [] ''partial'' '''' = ''''"
    by (simp add: ok_env_def dict_get_def)
  from empty_text_suppressed [of "ok_env (FinalResult [(''text'', '''')])" "[(''text'', '''')]" loads0 "''fr''" ?s]
       empty_text_suppressed [of "ok_env (PartialResult [])" "[]" loads0 "''fr''" ?s] f p
  show ?thesis by blast
qed

text \<open>
  C9. In the trace of a session, every transcription event (partial or final) and every
  translation event comes after the first message, and the first message has type
  \<open>listening_started\<close>: it is \<^verbatim>\<open>{"type": "listening_started", "message": "Listening..."}\<close>.
\<close>

theorem listening_started_first:
  assumes "i < length (sent (snd (process_audio loads lang start ins)))"
    and "is_transcription (sent (snd (process_audio loads lang start ins)) ! i)
         \<or> is_translation (sent (snd (process_audio loads lang start ins)) ! i)"
  shows "0 < i
     \<and> msg_field (sent (snd (process_audio loads lang start ins)) ! 0) ''type''
         = Some (JStr ''listening_started'')
     \<and> sent (snd (process_audio loads lang start ins)) ! 0 = status_msg"
proof -
  let ?tr = "sent (snd (process_audio loads lang start ins))"
  from assms(1) have "?tr \<noteq> []" by auto
  with status_first_process_audio [of loads lang start ins]
  obtain rest where tr: "?tr = status_msg # rest" by blast
  have "\<not> is_transcription status_msg" and "\<not> is_translation status_msg"
    by (simp_all add: is_transcription_def is_translation_def status_msg_def)
  with assms(2) tr have "i \<noteq> 0"
    by (cases i) auto
  moreover have "msg_field status_msg ''type'' = Some (JStr ''listening_started'')"
    by (simp add: status_msg_def)
  ultimately show ?thesis using tr by simp
qed

theorem listening_started_first_witness:
  "2 < length (sent (snd (process_audio loads0 ''fr'' ok_start hello_ins)))
   \<and> (is_transcription (sent (snd (process_audio loads0 ''fr'' ok_start hello_ins)) ! 2)
       \<or> is_translation (sent (snd (process_audio loads0 ''fr'' ok_start hello_ins)) ! 2))
   \<and> (0::nat) < 2
   \<and> msg_field (sent (snd (process_audio loads0 ''fr'' ok_start hello_ins)) ! 0) ''type''
       = Some (JStr ''listening_started'')
   \<and> sent (snd (process_audio loads0 ''fr'' ok_start hello_ins)) ! 0 = status_msg"
proof -
  let ?tr = "sent (snd (process_audio loads0 ''fr'' ok_start hello_ins))"
  have l: "2 < length ?tr" by (simp add: hello_run)
  have t: "is_transcription (?tr ! 2) \<or> is_translation (?tr ! 2)"
    by (simp add: hello_run is_transcription_def transcription_msg_def)
  from listening_started_first [OF l t] l t show ?thesis by blast
qed


section \<open>Properties of the handler, the registry and the capture device\<close>

lemma card_one_member: "x \<in> A \<Longrightarrow> card A = 1 \<longleftrightarrow> A = {x}"
  by (auto simp: card_1_singleton_iff)

lemma brackets_neq:
  "length s \<noteq> 1000 \<Longrightarrow> (s = brackets) = False"
  "length s \<noteq> 1000 \<Longrightarrow> (brackets = s) = False"
  by (auto simp: brackets_def)

lemma loads0_brackets: "loads0 brackets = Inl TooDeep"
  by (simp add: loads0_def brackets_neq)

lemma loads0_x: "loads0 ''x'' = Inl NotJSON"
  by (simp add: loads0_def brackets_neq)

text \<open>
  C7 (as stated, refuted). A message of type ERROR carries no command, yet it ends the
  message loop: the handler then cancels the processing task and removes the
  connection. (Two more ways out of the loop, by exceptions that no clause catches: a
  TEXT message whose data is valid JSON but not an object, such as \<open>5\<close>, raises
  \<^verbatim>\<open>AttributeError\<close> at \<^verbatim>\<open>data.get\<close>; a TEXT message of a thousand opening
  brackets, which is not valid JSON, raises \<^verbatim>\<open>RecursionError\<close> in the decoder.
  In both the handler ends without cancelling the processing task.)
\<close>

theorem only_stop_ends_session_counterexample:
  "fst (message_loop loads0 [ERROR, TEXT ''x'']) = Inr ErrorMessage
   \<and> handler_finish loads0 1 [ERROR, TEXT ''x''] TaskRunning
        \<lparr>active_connections = {1}, should_stop = False, device_pending = 0, device_running = 1\<rparr>
       = Some \<lparr>escaped = None, task = TaskRaised CancelledError,
               registry = \<lparr>active_connections = {}, should_stop = True, device_pending = 0,
                            device_running = 1\<rparr>,
               log = [(Error, ''WebSocket error''),
                      (Info, ''No active connections, stopping audio capture'')]\<rparr>
   \<and> fst (message_loop loads0 [TEXT ''5'', TEXT ''x'']) = Inl AttributeError
   \<and> fst (message_loop loads0 [TEXT brackets, TEXT ''x'']) = Inl RecursionError
   \<and> map_option task
        (handler_finish loads0 1 [TEXT brackets, TEXT ''x''] TaskRunning
           \<lparr>active_connections = {1}, should_stop = False, device_pending = 0, device_running = 1\<rparr>)
       = Some TaskRunning"
  by (simp add: handler_finish_def handler_try_def teardown_def loads0_brackets)
     (simp add: loads0_def brackets_neq)

text \<open>
  C7 (amended). A TEXT message that the decoder rejects with \<^verbatim>\<open>JSONDecodeError\<close>
  is logged (received, then a warning) and ignored: the loop goes on with the next
  message. A TEXT message that parses to a JSON object ends the loop if its
  \<open>command\<close> is \<open>stop\<close>, and is logged and passed over otherwise. A message of type
  ERROR is logged and ends the loop as well. Messages of other types are ignored.
\<close>

theorem message_loop_dispatch:
  "(loads data = Inl NotJSON \<longrightarrow>
      message_loop loads (TEXT data # rest) =
        (fst (message_loop loads rest),
         (Info, ''Received WebSocket message: '' @ data)
           # (Warning, ''Received invalid JSON: '' @ data) # snd (message_loop loads rest)))
   \<and> (loads data = Inr (JObj kvs) \<and> map_of kvs ''command'' = Some (JStr ''stop'') \<longrightarrow>
      message_loop loads (TEXT data # rest) =
        (Inr StopCommand, [(Info, ''Received WebSocket message: '' @ data)]))
   \<and> (loads data = Inr (JObj kvs) \<and> map_of kvs ''command'' \<noteq> Some (JStr ''stop'') \<longrightarrow>
      message_loop loads (TEXT data # rest) =
        (fst (message_loop loads rest),
         (Info, ''Received WebSocket message: '' @ data) # snd (message_loop loads rest)))
   \<and> message_loop loads (ERROR # rest) = (Inr ErrorMessage, [(Error, ''WebSocket error'')])
   \<and> message_loop loads (OtherType # rest) = message_loop loads rest"
  by (auto simp: Let_def split: prod.splits option.splits sum.splits)

theorem message_loop_dispatch_witness:
  "loads0 ''x'' = Inl NotJSON
   \<and> message_loop loads0 (TEXT ''x'' # [OtherType]) =
        (fst (message_loop loads0 [OtherType]),
         (Info, ''Received WebSocket message: '' @ ''x'')
           # (Warning, ''Received invalid JSON: '' @ ''x'') # snd (message_loop loads0 [OtherType]))
   \<and> loads0 ''{\"command\": \"stop\"}'' = Inr (JObj [(''command'', JStr ''stop'')])
   \<and> map_of [(''command'', JStr ''stop'')] ''command'' = Some (JStr ''stop'')
   \<and> message_loop loads0 (TEXT ''{\"command\": \"stop\"}'' # [OtherType]) =
        (Inr StopCommand, [(Info, ''Received WebSocket message: '' @ ''{\"command\": \"stop\"}'')])
   \<and> loads0 ''{\"command\": \"go\"}'' = Inr (JObj [(''command'', JStr ''go'')])
   \<and> map_of [(''command'', JStr ''go'')] ''command'' \<noteq> Some (JStr ''stop'')
   \<and> message_loop loads0 (TEXT ''{\"command\": \"go\"}'' # [OtherType]) =
        (fst (message_loop loads0 [OtherType]),
         (Info, ''Received WebSocket message: '' @ ''{\"command\": \"go\"}'')
           # snd (message_loop loads0 [OtherType]))"
proof -
  have a: "loads0 ''x'' = Inl NotJSON" by (rule loads0_x)
  have b: "loads0 ''{\"command\": \"stop\"}'' = Inr (JObj [(''command'', JStr ''stop'')])
           \<and> map_of [(''command'', JStr ''stop'')] ''command'' = Some (JStr ''stop'')"
    by (simp add: loads0_def)
  have c: "loads0 ''{\"command\": \"go\"}'' = Inr (JObj [(''command'', JStr ''go'')])
           \<and> map_of [(''command'', JStr ''go'')] ''command'' \<noteq> Some (JStr ''stop'')"
    by (simp add: loads0_def)
  from message_loop_dispatch [of loads0 "''x''" "[OtherType]"]
       message_loop_dispatch [of loads0 "''{\"command\": \"stop\"}''" "[OtherType]" "[(''command'', JStr ''stop'')]"]
       message_loop_dispatch [of loads0 "''{\"command\": \"go\"}''" "[OtherType]" "[(''command'', JStr ''go'')]"]
       a b c
  show ?thesis by blast
qed

lemma handler_try_stop:
  assumes "list_all (passed_over loads) pre" and "is_stop loads data"
  shows "\<exists>l. handler_try loads (pre @ TEXT data # post) TaskRunning
              = Some (None, TaskRaised CancelledError, l)"
proof -
  obtain l where "message_loop loads (pre @ TEXT data # post) = (Inr StopCommand, l)"
    using message_loop_reaches_stop [OF assms, of post]
    by (cases "message_loop loads (pre @ TEXT data # post)") simp
  then show ?thesis by (simp add: handler_try_def)
qed

lemma teardown_member:
  assumes "ws \<in> active_connections srv"
  shows "\<exists>srv1. teardown ws srv = Inr srv1
           \<and> active_connections srv1 = active_connections srv - {ws}
           \<and> (active_connections srv = {ws}
                \<longrightarrow> card (active_connections srv1) = 0 \<and> should_stop srv1)"
proof (cases "card (active_connections srv - {ws}) = 0")
  case True
  with assms show ?thesis
    by (simp add: teardown_def Let_def)
next
  case False
  then have "active_connections srv \<noteq> {ws}" by auto
  with False assms show ?thesis
    by (simp add: teardown_def Let_def)
qed

text \<open>
  The stop command where the task is suspended at an await. Suppose the handler reads
  a stop command after messages it passed over, while the processing task is
  suspended at an await of iteration \<open>env\<close>, where the \<^verbatim>\<open>CancelledError\<close> is thrown.
  Then the handler cancels the task and awaits it, the \<^verbatim>\<open>CancelledError\<close> of the
  await is swallowed (nothing escapes the handler), and the connection is removed from
  the registry; if it was the only one, the registry has zero connections and the stop
  signal is set. The task ends cancelled, and whatever it would have been fed later,
  it hands nothing more to the socket.
\<close>

lemma stop_command_while_suspended:
  assumes pre: "list_all (passed_over loads) pre"
    and stop: "is_stop loads data"
    and ws: "ws \<in> active_connections srv"
    and running: "process_audio loads lang start ins = (TaskRunning, s)"
    and thrown: "iteration loads lang env s = (Inl CancelledError, s1)"
  shows "(\<exists>res. handler_finish loads ws (pre @ TEXT data # post)
                  (fst (process_audio loads lang start ins)) srv = Some res
            \<and> escaped res = None
            \<and> task res = TaskRaised CancelledError
            \<and> await_task (task res) = Some (Inl CancelledError)
            \<and> active_connections (registry res) = active_connections srv - {ws}
            \<and> (active_connections srv = {ws}
                 \<longrightarrow> card (active_connections (registry res)) = 0 \<and> should_stop (registry res)))
       \<and> process_audio loads lang start (ins @ Iter env # later) = (TaskRaised CancelledError, s1)"
proof -
  from handler_try_stop [OF pre stop, of post] obtain l where
    h: "handler_try loads (pre @ TEXT data # post) TaskRunning = Some (None, TaskRaised CancelledError, l)"
    by blast
  obtain srv1 where t: "teardown ws srv = Inr srv1"
    and a: "active_connections srv1 = active_connections srv - {ws}"
    and z: "active_connections srv = {ws} \<longrightarrow> card (active_connections srv1) = 0 \<and> should_stop srv1"
    using teardown_member [OF ws] by blast
  from running h t a z have "\<exists>res. handler_finish loads ws (pre @ TEXT data # post)
                  (fst (process_audio loads lang start ins)) srv = Some res
            \<and> escaped res = None
            \<and> task res = TaskRaised CancelledError
            \<and> await_task (task res) = Some (Inl CancelledError)
            \<and> active_connections (registry res) = active_connections srv - {ws}
            \<and> (active_connections srv = {ws}
                 \<longrightarrow> card (active_connections (registry res)) = 0 \<and> should_stop (registry res))"
    by (simp add: handler_finish_def)
  moreover from process_audio_cancelled [OF running thrown]
  have "process_audio loads lang start (ins @ Iter env # later) = (TaskRaised CancelledError, s1)" .
  ultimately show ?thesis by blast
qed

lemma stop_command_while_suspended_example:
  "list_all (passed_over loads0) [TEXT ''x'']
   \<and> is_stop loads0 ''{\"command\": \"stop\"}''
   \<and> 1 \<in> active_connections
          \<lparr>active_connections = {1}, should_stop = False, device_pending = 0, device_running = 1\<rparr>
   \<and> process_audio loads0 ''fr'' ok_start hello_ins =
       (TaskRunning,
        \<lparr>current_partial = ''hel'',
         sent = [status_msg, partial_msg ''hel'', transcription_msg ''hello'',
                 translation_msg (JStr ''hello'')]\<rparr>)
   \<and> iteration loads0 ''fr'' cancelled_env
        \<lparr>current_partial = ''hel'',
         sent = [status_msg, partial_msg ''hel'', transcription_msg ''hello'',
                 translation_msg (JStr ''hello'')]\<rparr> =
       (Inl CancelledError,
        \<lparr>current_partial = ''hel'',
         sent = [status_msg, partial_msg ''hel'', transcription_msg ''hello'',
                 translation_msg (JStr ''hello''), transcription_msg ''bye'']\<rparr>)
   \<and> (\<exists>res. handler_finish loads0 1 ([TEXT ''x''] @ TEXT ''{\"command\": \"stop\"}'' # [])
                 (fst (process_audio loads0 ''fr'' ok_start hello_ins))
                 \<lparr>active_connections = {1}, should_stop = False, device_pending = 0,
                  device_running = 1\<rparr> = Some res
            \<and> escaped res = None
            \<and> task res = TaskRaised CancelledError
            \<and> card (active_connections (registry res)) = 0 \<and> should_stop (registry res))
   \<and> process_audio loads0 ''fr'' ok_start
         (hello_ins @ Iter cancelled_env # [Iter (ok_env (PartialResult [(''partial'', ''next'')]))]) =
       (TaskRaised CancelledError,
        \<lparr>current_partial = ''hel'',
         sent = [status_msg, partial_msg ''hel'', transcription_msg ''hello'',
                 translation_msg (JStr ''hello''), transcription_msg ''bye'']\<rparr>)"
proof -
  let ?srv = "\<lparr>active_connections = {1}, should_stop = False, device_pending = 0, device_running = 1\<rparr>"
  let ?s = "\<lparr>current_partial = ''hel'',
         sent = [status_msg, partial_msg ''hel'', transcription_msg ''hello'',
                 translation_msg (JStr ''hello'')]\<rparr>"
  let ?s1 = "\<lparr>current_partial = ''hel'',
         sent = [status_msg, partial_msg ''hel'', transcription_msg ''hello'',
                 translation_msg (JStr ''hello''), transcription_msg ''bye'']\<rparr>"
  have pre: "list_all (passed_over loads0) [TEXT ''x'']"
    by (simp add: passed_over_def loads0_x)
  have stop: "is_stop loads0 ''{\"command\": \"stop\"}''"
    by (simp add: is_stop_def loads0_def)
  have ws: "1 \<in> active_connections ?srv" by simp
  have running: "process_audio loads0 ''fr'' ok_start hello_ins = (TaskRunning, ?s)"
    by (rule hello_run)
  have thrown: "iteration loads0 ''fr'' cancelled_env ?s = (Inl CancelledError, ?s1)"
    by (simp add: iteration_def try_body_def cancelled_env_def dict_get_def send_str_def
          translate_text_def translate_try_def Let_def)
  from stop_command_while_suspended [OF pre stop ws running thrown,
         of "[]" "[Iter (ok_env (PartialResult [(''partial'', ''next'')]))]"]
       pre stop ws running thrown
  show ?thesis by auto
qed

lemma quiet_iteration:
  assumes "quiet (current_partial s) (Iter env)"
  shows "iteration loads lang env s = (Inr (), s)"
  using assms
  by (cases "frame env") (auto simp: quiet_def iteration_def try_body_def Let_def)

lemma quiet_while_loop:
  assumes "list_all (quiet (current_partial s)) ins"
  shows "while_loop loads lang ins s = (Inr TaskRunning, s)"
  using assms
proof (induction ins)
  case Nil
  then show ?case by simp
next
  case (Cons x ins)
  show ?case
  proof (cases x)
    case StopSet
    with Cons.prems show ?thesis by (simp add: quiet_def)
  next
    case (Iter env)
    with Cons.prems have "iteration loads lang env s = (Inr (), s)"
      by (simp add: quiet_iteration)
    with Iter Cons show ?thesis by simp
  qed
qed

lemma quiet_process_audio:
  assumes "recognizer start = Return u" and "send0 start = Return u'"
    and "list_all (quiet []) ins"
  shows "process_audio loads lang start ins =
           (TaskRunning, \<lparr>current_partial = [], sent = [status_msg]\<rparr>)"
proof -
  have "while_loop loads lang ins \<lparr>current_partial = [], sent = [status_msg]\<rparr>
          = (Inr TaskRunning, \<lparr>current_partial = [], sent = [status_msg]\<rparr>)"
    using assms(3) by (intro quiet_while_loop) simp
  with assms(1,2) show ?thesis
    by (simp add: process_audio_def process_try_def send_str_def)
qed

text \<open>
  C8 (the code departs from the claim). In a silent room every pass through the loop
  of \<^verbatim>\<open>process_audio\<close> is quiet: \<^verbatim>\<open>audio_queue.get\<close> blocks inside the coroutine and
  the empty partial text skips the send, so no await is executed. However many such
  passes are made, and although a \<^verbatim>\<open>CancelledError\<close> waits at every await of the
  loop body, the task is still running and has handed only the status message to the
  socket. The task never gives control back to the event loop, so the handler's
  \<^verbatim>\<open>async for msg in ws\<close> is not resumed: a stop command that the client has sent is
  not read, the task is not cancelled and the connection stays in the registry. The
  claim holds only where the task is suspended at an await
  (\<open>stop_command_while_suspended\<close>).
\<close>

theorem silent_session_never_yields:
  "list_all (quiet []) (replicate n (Iter silent_env))
   \<and> process_audio loads0 ''fr'' ok_start (replicate n (Iter silent_env))
       = (TaskRunning, \<lparr>current_partial = [], sent = [status_msg]\<rparr>)"
proof -
  have q: "list_all (quiet []) (replicate n (Iter silent_env))"
    by (induction n) (simp_all add: quiet_def silent_env_def dict_get_def)
  have "recognizer ok_start = Return ()" and "send0 ok_start = Return ()"
    by (simp_all add: ok_start_def)
  then have "process_audio loads0 ''fr'' ok_start (replicate n (Iter silent_env))
       = (TaskRunning, \<lparr>current_partial = [], sent = [status_msg]\<rparr>)"
    using q by (rule quiet_process_audio)
  with q show ?thesis by simp
qed

text \<open>
  C4 (as stated, refuted). One client connects, the device task opens the stream, the
  client disconnects: the registry is empty and the stream is still open. The device
  task only sees the stop signal when it next wakes from its sleep.
\<close>

theorem device_running_without_subscribers_counterexample:
  "run [Connect 1, DeviceStart True, Disconnect 1] server0 =
     Some \<lparr>active_connections = {}, should_stop = True, device_pending = 0, device_running = 1\<rparr>
   \<and> card (active_connections \<lparr>active_connections = {}, should_stop = True, device_pending = 0,
                                 device_running = 1\<rparr>) = 0
   \<and> 0 < device_running \<lparr>active_connections = {}, should_stop = True, device_pending = 0,
                            device_running = 1\<rparr>"
  by (simp add: server0_def on_connect_def teardown_def device_start_def Let_def)

text \<open>
  C4 (amended). In every state reachable from the initial one by connects,
  disconnects and steps of device tasks: a new connection clears the stop signal and
  creates a device task exactly when the connection count goes from 0 to 1; a
  teardown sets the stop signal exactly when the count goes from 1 to 0; a created
  device task whose stream opens starts running unless the stop signal is set; a
  running device task that wakes stops exactly when the stop signal is set; and
  whenever there are zero connections and a device task exists, the stop signal is set.
\<close>

theorem capture_signals:
  assumes "run es server0 = Some srv"
  shows "(active_connections srv = {} \<and> 0 < device_pending srv + device_running srv
            \<longrightarrow> should_stop srv)
     \<and> (ws \<notin> active_connections srv \<longrightarrow>
          on_connect ws srv =
            (if card (active_connections srv) = 0
             then srv\<lparr>active_connections := {ws}, should_stop := False,
                       device_pending := device_pending srv + 1\<rparr>
             else srv\<lparr>active_connections := insert ws (active_connections srv)\<rparr>))
     \<and> (ws \<in> active_connections srv \<longrightarrow>
          teardown ws srv =
            Inr (if card (active_connections srv) = 1
                 then srv\<lparr>active_connections := {}, should_stop := True\<rparr>
                 else srv\<lparr>active_connections := active_connections srv - {ws}\<rparr>))
     \<and> (0 < device_pending srv \<longrightarrow>
          device_start True srv =
            Some (if should_stop srv then srv\<lparr>device_pending := device_pending srv - 1\<rparr>
                  else srv\<lparr>device_pending := device_pending srv - 1,
                           device_running := device_running srv + 1\<rparr>))
     \<and> (0 < device_running srv \<longrightarrow>
          device_poll srv =
            Some (if should_stop srv then srv\<lparr>device_running := device_running srv - 1\<rparr>
                  else srv))"
proof -
  have "stop_inv server0" by (simp add: stop_inv_def server0_def)
  with assms have inv: "stop_inv srv" by (rule run_stop_inv)
  then have fin: "finite (active_connections srv)" by (simp add: stop_inv_def)
  from inv have 1: "active_connections srv = {} \<and> 0 < device_pending srv + device_running srv
            \<longrightarrow> should_stop srv"
    by (simp add: stop_inv_def)
  have 2: "on_connect ws srv =
            (if card (active_connections srv) = 0
             then srv\<lparr>active_connections := {ws}, should_stop := False,
                       device_pending := device_pending srv + 1\<rparr>
             else srv\<lparr>active_connections := insert ws (active_connections srv)\<rparr>)"
    if "ws \<notin> active_connections srv"
    using fin that by (simp add: on_connect_eq)
  have 3: "teardown ws srv =
            Inr (if card (active_connections srv) = 1
                 then srv\<lparr>active_connections := {}, should_stop := True\<rparr>
                 else srv\<lparr>active_connections := active_connections srv - {ws}\<rparr>)"
    if "ws \<in> active_connections srv"
    using fin that by (simp only: teardown_eq card_one_member)
  have 4: "device_start True srv =
            Some (if should_stop srv then srv\<lparr>device_pending := device_pending srv - 1\<rparr>
                  else srv\<lparr>device_pending := device_pending srv - 1,
                           device_running := device_running srv + 1\<rparr>)"
    if "0 < device_pending srv"
    using that by (simp add: device_start_def Let_def)
  have 5: "device_poll srv =
            Some (if should_stop srv then srv\<lparr>device_running := device_running srv - 1\<rparr>
                  else srv)"
    if "0 < device_running srv"
    using that by (simp add: device_poll_def)
  from 1 2 3 4 5 show ?thesis by blast
qed

theorem capture_signals_witness:
  "run [Connect 1, DeviceStart True, Disconnect 1] server0 =
     Some \<lparr>active_connections = {}, should_stop = True, device_pending = 0, device_running = 1\<rparr>
   \<and> should_stop \<lparr>active_connections = {}, should_stop = True, device_pending = 0, device_running = 1\<rparr>
   \<and> on_connect 2 \<lparr>active_connections = {}, should_stop = True, device_pending = 0, device_running = 1\<rparr>
       = \<lparr>active_connections = {2}, should_stop = False, device_pending = 1, device_running = 1\<rparr>
   \<and> device_poll \<lparr>active_connections = {}, should_stop = True, device_pending = 0, device_running = 1\<rparr>
       = Some \<lparr>active_connections = {}, should_stop = True, device_pending = 0, device_running = 0\<rparr>
   \<and> run [Connect 1] server0 =
     Some \<lparr>active_connections = {1}, should_stop = False, device_pending = 1, device_running = 0\<rparr>
   \<and> teardown 1 \<lparr>active_connections = {1}, should_stop = False, device_pending = 1, device_running = 0\<rparr>
       = Inr \<lparr>active_connections = {}, should_stop = True, device_pending = 1, device_running = 0\<rparr>
   \<and> device_start True \<lparr>active_connections = {1}, should_stop = False, device_pending = 1, device_running = 0\<rparr>
       = Some \<lparr>active_connections = {1}, should_stop = False, device_pending = 0, device_running = 1\<rparr>"
proof -
  let ?a = "\<lparr>active_connections = {}, should_stop = True, device_pending = 0, device_running = 1\<rparr>"
  let ?b = "\<lparr>active_connections = {1}, should_stop = False, device_pending = 1, device_running = 0\<rparr>"
  have a: "run [Connect 1, DeviceStart True, Disconnect 1] server0 = Some ?a"
    by (simp add: server0_def on_connect_def teardown_def device_start_def Let_def)
  have b: "run [Connect 1] server0 = Some ?b"
    by (simp add: server0_def on_connect_def Let_def)
  have a1: "active_connections ?a = {} \<and> 0 < device_pending ?a + device_running ?a"
    and a2: "2 \<notin> active_connections ?a" and a3: "0 < device_running ?a"
    by simp_all
  have b1: "1 \<in> active_connections ?b" and b2: "0 < device_pending ?b"
    by simp_all
  from capture_signals [OF a, of 2] a1 a2 a3
  have "should_stop ?a"
    and "on_connect 2 ?a
       = \<lparr>active_connections = {2}, should_stop = False, device_pending = 1, device_running = 1\<rparr>"
    and "device_poll ?a
       = Some \<lparr>active_connections = {}, should_stop = True, device_pending = 0, device_running = 0\<rparr>"
    by simp_all
  moreover from capture_signals [OF b, of 1] b1 b2
  have "teardown 1 ?b
       = Inr \<lparr>active_connections = {}, should_stop = True, device_pending = 1, device_running = 0\<rparr>"
    and "device_start True ?b
       = Some \<lparr>active_connections = {1}, should_stop = False, device_pending = 0, device_running = 1\<rparr>"
    by simp_all
  ultimately show ?thesis using a b by simp
qed


end
